theory Spec2Isabelle
  imports Complex_Main "HOL-Library.Sublist"
begin

section \<open>The vision assistance controller (src/scr/main.py)\<close>

text \<open>
  The controller reacts to a push button: the GPIO callback acknowledges the press
  with a short pulse of the vibration motor and queues a task; the loop of
  \<open>process_tasks\<close> takes the tasks one by one, captures an image with an external
  program, sends it to a remote model, pulses the motor and speaks the answer through
  another external program.

  Everything the program does to the outside is written to a trace of events, in the
  order of the calls. What the outside answers (the exit status of the capture
  program, the bytes of the image file, the reply of the remote service, whether the
  speech process could be started, whether the idle sleep was interrupted) is an
  input of the model, one record per pass through the loop body. An exception is a
  value, and a function that can raise returns a sum whose left side holds the
  exception and the state in which it was raised.

  A Python string is the list of the bytes of its UTF-8 encoding. Its characters are
  the groups that a byte forms with the continuation bytes after it.

  What the model takes for granted: \<open>print\<close> and the calls of the GPIO library do not
  raise; the interrupt signal reaches the loop in one of the calls to the outside or
  in the sleep at the end of a pass, not inside a pulse of the motor; the callback of
  the button runs between two passes of the loop, never inside one.
\<close>

subsection \<open>Exceptions\<close>

datatype exn_class =
    CalledProcessError | OSError | APIError | AttributeError | TypeError | RuntimeError
  | KeyboardInterrupt | SystemExit

text \<open>\<open>except Exception\<close> catches every class but the two that derive from
  \<open>BaseException\<close> only.\<close>

fun is_Exception :: "exn_class \<Rightarrow> bool" where
  "is_Exception KeyboardInterrupt = False"
| "is_Exception SystemExit = False"
| "is_Exception _ = True"

datatype exn = Exn (cls: exn_class) (msg: string)

subsection \<open>Response objects\<close>

text \<open>A Python value as far as \<open>extract_text\<close> looks at it: \<open>None\<close>, a number, a
  string, a list, or an object with named attributes.\<close>

datatype pyval =
    PyNone
  | PyInt int
  | PyStr string
  | PyList "pyval list"
  | PyObj "(string \<times> pyval) list"

text \<open>Attribute lookup. Of the five names the program asks for (\<open>output_text\<close>,
  \<open>output\<close>, \<open>content\<close>, \<open>type\<close>, \<open>text\<close>) none is an attribute of \<open>None\<close>, of a
  number, a string or a list.\<close>

fun attr :: "pyval \<Rightarrow> string \<Rightarrow> pyval option" where
  "attr (PyObj as) name = map_of as name"
| "attr _ name = None"

definition hasattr :: "pyval \<Rightarrow> string \<Rightarrow> bool" where
  "hasattr v name = (attr v name \<noteq> None)"

definition getattr :: "pyval \<Rightarrow> string \<Rightarrow> pyval \<Rightarrow> pyval" where
  "getattr v name dflt = (case attr v name of None \<Rightarrow> dflt | Some x \<Rightarrow> x)"

text \<open>\<open>v.name\<close>: a missing attribute raises \<open>AttributeError\<close>.\<close>

definition dot :: "pyval \<Rightarrow> string \<Rightarrow> exn_class + pyval" where
  "dot v name = (case attr v name of None \<Rightarrow> Inl AttributeError | Some x \<Rightarrow> Inr x)"

text \<open>The characters of a string. A continuation byte of UTF-8 has the two highest
  bits \<open>10\<close>.\<close>

definition is_continuation :: "char \<Rightarrow> bool" where
  "is_continuation c = (digit7 c \<and> \<not> digit6 c)"

function utf8_chars :: "string \<Rightarrow> string list" where
  "utf8_chars [] = []"
| "utf8_chars (c # cs) =
     (c # takeWhile is_continuation cs) # utf8_chars (dropWhile is_continuation cs)"
  by pat_completeness auto
termination
  by (relation "measure length") (auto simp: less_Suc_eq_le length_dropWhile_le)

text \<open>\<open>for x in v\<close>: a list gives its elements, a string its characters as strings of
  length one, anything else raises \<open>TypeError\<close>.\<close>

fun py_iter :: "pyval \<Rightarrow> exn_class + pyval list" where
  "py_iter (PyList xs) = Inr xs"
| "py_iter (PyStr s) = Inr (map PyStr (utf8_chars s))"
| "py_iter _ = Inl TypeError"

text \<open>
  The characters that \<open>str.strip()\<close> removes, those for which \<open>str.isspace()\<close> holds:
  U+0009 to U+000D, U+001C to U+0020, U+0085, U+00A0, U+1680, U+2000 to U+200A,
  U+2028, U+2029, U+202F, U+205F and U+3000, each in UTF-8.
\<close>

definition whitespace :: "string list" where
  "whitespace =
     [[CHR 0x09], [CHR 0x0A], [CHR 0x0B], [CHR 0x0C], [CHR 0x0D],
      [CHR 0x1C], [CHR 0x1D], [CHR 0x1E], [CHR 0x1F], [CHR 0x20],
      [CHR 0xC2, CHR 0x85], [CHR 0xC2, CHR 0xA0], [CHR 0xE1, CHR 0x9A, CHR 0x80],
      [CHR 0xE2, CHR 0x80, CHR 0x80], [CHR 0xE2, CHR 0x80, CHR 0x81],
      [CHR 0xE2, CHR 0x80, CHR 0x82], [CHR 0xE2, CHR 0x80, CHR 0x83],
      [CHR 0xE2, CHR 0x80, CHR 0x84], [CHR 0xE2, CHR 0x80, CHR 0x85],
      [CHR 0xE2, CHR 0x80, CHR 0x86], [CHR 0xE2, CHR 0x80, CHR 0x87],
      [CHR 0xE2, CHR 0x80, CHR 0x88], [CHR 0xE2, CHR 0x80, CHR 0x89],
      [CHR 0xE2, CHR 0x80, CHR 0x8A], [CHR 0xE2, CHR 0x80, CHR 0xA8],
      [CHR 0xE2, CHR 0x80, CHR 0xA9], [CHR 0xE2, CHR 0x80, CHR 0xAF],
      [CHR 0xE2, CHR 0x81, CHR 0x9F], [CHR 0xE3, CHR 0x80, CHR 0x80]]"

definition is_space :: "string \<Rightarrow> bool" where
  "is_space ch = (ch \<in> set whitespace)"

text \<open>\<open>s.strip()\<close>: the string without the white space characters at its two ends.\<close>

definition strip :: "string \<Rightarrow> string" where
  "strip s = concat (rev (dropWhile is_space (rev (dropWhile is_space (utf8_chars s)))))"

text \<open>\<open>v.strip()\<close>: only a string has the method.\<close>

fun strip_method :: "pyval \<Rightarrow> exn_class + string" where
  "strip_method (PyStr s) = Inr (strip s)"
| "strip_method _ = Inl AttributeError"

text \<open>\<open>getattr(part, "type", "") in ("output_text", "text")\<close>\<close>

definition text_typed :: "pyval \<Rightarrow> bool" where
  "text_typed part =
     (getattr part ''type'' (PyStr '''') \<in> set [PyStr ''output_text'', PyStr ''text''])"

text \<open>The inner loop over the parts of one item. \<open>Inr None\<close>: the loop ended without
  a \<open>return\<close>.\<close>

fun scan_parts :: "pyval list \<Rightarrow> exn_class + string option" where
  "scan_parts [] = Inr None"
| "scan_parts (part # rest) =
     (if text_typed part then
        (case dot part ''text'' of
           Inl e \<Rightarrow> Inl e
         | Inr t \<Rightarrow> (case strip_method t of Inl e \<Rightarrow> Inl e | Inr r \<Rightarrow> Inr (Some r)))
      else scan_parts rest)"

text \<open>The outer loop over the items of \<open>resp.output\<close>.\<close>

fun scan_items :: "pyval list \<Rightarrow> exn_class + string option" where
  "scan_items [] = Inr None"
| "scan_items (item # rest) =
     (case py_iter (getattr item ''content'' (PyList [])) of
        Inl e \<Rightarrow> Inl e
      | Inr parts \<Rightarrow>
          (case scan_parts parts of
             Inl e \<Rightarrow> Inl e
           | Inr (Some r) \<Rightarrow> Inr (Some r)
           | Inr None \<Rightarrow> scan_items rest))"

text \<open>The body of the \<open>try\<close> of \<open>extract_text\<close>.\<close>

definition extract_text_try :: "pyval \<Rightarrow> exn_class + string option" where
  "extract_text_try resp =
     (if hasattr resp ''output_text'' then
        (case dot resp ''output_text'' of
           Inl e \<Rightarrow> Inl e
         | Inr t \<Rightarrow> (case strip_method t of Inl e \<Rightarrow> Inl e | Inr r \<Rightarrow> Inr (Some r)))
      else
        (case py_iter (getattr resp ''output'' (PyList [])) of
           Inl e \<Rightarrow> Inl e
         | Inr items \<Rightarrow> scan_items items))"

text \<open>What the program takes from its libraries without the repository defining it:
  \<open>str\<close> of a response object and \<open>base64.b64encode\<close>.\<close>

record pylib =
  py_str :: "pyval \<Rightarrow> string"
  b64encode :: "string \<Rightarrow> string"

text \<open>\<open>extract_text\<close>: \<open>except Exception: pass\<close>, then the fall-back \<open>str(resp)\<close>.\<close>

definition extract_text :: "pylib \<Rightarrow> pyval \<Rightarrow> exn_class + string" where
  "extract_text lib resp =
     (case extract_text_try resp of
        Inr (Some r) \<Rightarrow> Inr r
      | Inr None \<Rightarrow> Inr (py_str lib resp)
      | Inl e \<Rightarrow> if is_Exception e then Inr (py_str lib resp) else Inl e)"

subsection \<open>State, events and the answers of the outside\<close>

datatype level = LOW | HIGH

datatype direction = GPIO_IN | GPIO_OUT

datatype event =
    Print string
  | GpioSetmode
  | GpioSetup nat direction
  | GpioOutput nat level
  | GpioAddEventDetect nat nat
  | GpioCleanup
  | Sleep rat
  | QueuePut string
  | QueueGet string
  | SubprocessRun "string list"
  | OpenRead string
  | ResponsesCreate string string string
  | Popen string

record state =
  task_queue :: "string list"
  levels :: "nat \<Rightarrow> level"
  channels :: "nat list"
  trace :: "event list"

datatype proc_result = Exited int | SpawnFailed exn

record env =
  capture_result :: proc_result
  read_result :: "exn + string"
  api_result :: "exn + pyval"
  popen_result :: "exn option"
  sleep_result :: "exn option"

definition BtnPin :: nat where "BtnPin = 11"
definition VibPin :: nat where "VibPin = 29"

definition MODEL :: string where "MODEL = ''gpt-5-nano-2025-08-07''"
definition IMAGE_PATH :: string where "IMAGE_PATH = ''captured_image.jpg''"
definition RESOLUTION :: string where "RESOLUTION = ''640x480''"

definition prompt :: string where
  "prompt = ''Describe what'' @ [CHR 0xE2, CHR 0x80, CHR 0x99]
            @ ''s visible in one short sentence (<= 15 words).''"

definition emit :: "event \<Rightarrow> state \<Rightarrow> state" where
  "emit e s = s\<lparr>trace := trace s @ [e]\<rparr>"

definition gpio_output :: "nat \<Rightarrow> level \<Rightarrow> state \<Rightarrow> state" where
  "gpio_output pin lv s = emit (GpioOutput pin lv) (s\<lparr>levels := (levels s)(pin := lv)\<rparr>)"

subsection \<open>The functions of the program\<close>

text \<open>\<open>subprocess.run(..., check=True)\<close> raises \<open>CalledProcessError\<close> on an exit status
  other than zero; its message, which names the command and the status, is shortened
  here.\<close>

definition capture_image :: "string \<Rightarrow> env \<Rightarrow> state \<Rightarrow> (exn \<times> state) + state" where
  "capture_image path ev s =
     (let s1 = emit (Print '' Capturing image...'') s;
          s2 = emit (SubprocessRun [''fswebcam'', ''-r'', RESOLUTION, ''-S'', ''2'',
                                    ''--no-banner'', path]) s1
      in case capture_result ev of
           SpawnFailed e \<Rightarrow> Inl (e, s2)
         | Exited code \<Rightarrow>
             if code \<noteq> 0 then Inl (Exn CalledProcessError ''non-zero exit status'', s2)
             else Inr (emit (Print '' Image captured successfully!'') s2))"

definition to_data_url ::
  "pylib \<Rightarrow> string \<Rightarrow> env \<Rightarrow> state \<Rightarrow> (exn \<times> state) + (string \<times> state)" where
  "to_data_url lib path ev s =
     (let s1 = emit (OpenRead path) s
      in case read_result ev of
           Inl e \<Rightarrow> Inl (e, s1)
         | Inr bytes \<Rightarrow> Inr (''data:image/jpeg;base64,'' @ b64encode lib bytes, s1))"

definition analyze_image ::
  "pylib \<Rightarrow> env \<Rightarrow> state \<Rightarrow> (exn \<times> state) + (string \<times> state)" where
  "analyze_image lib ev s =
     (case capture_image IMAGE_PATH ev s of
        Inl x \<Rightarrow> Inl x
      | Inr s1 \<Rightarrow>
          (case to_data_url lib IMAGE_PATH ev s1 of
             Inl x \<Rightarrow> Inl x
           | Inr (data_url, s2) \<Rightarrow>
               (let s3 = emit (Print '' Sending image to OpenAI...'') s2;
                    s4 = emit (ResponsesCreate MODEL prompt data_url) s3
                in case api_result ev of
                     Inl e \<Rightarrow> Inl (e, s4)
                   | Inr resp \<Rightarrow>
                       (case extract_text lib resp of
                          Inl c \<Rightarrow> Inl (Exn c [], s4)
                        | Inr description \<Rightarrow>
                            Inr (description,
                                 emit (Print ('' AI says: '' @ description)) s4)))))"

text \<open>\<open>text.replace(c, '')\<close> for a single ASCII character \<open>c\<close>, whose byte is part of
  no other character.\<close>

definition remove_char :: "char \<Rightarrow> string \<Rightarrow> string" where
  "remove_char c text = filter (\<lambda>x. x \<noteq> c) text"

definition safe_text :: "string \<Rightarrow> string" where
  "safe_text text = remove_char (CHR 0x27) (remove_char (CHR 0x22) text)"

definition espeak_command :: "string \<Rightarrow> string" where
  "espeak_command t =
     ''espeak '' @ [CHR 0x22] @ t @ [CHR 0x22] @ '' --stdout | aplay -D plughw:2,0''"

definition speak :: "string \<Rightarrow> env \<Rightarrow> state \<Rightarrow> (exn \<times> state) + state" where
  "speak text ev s =
     (let s1 = emit (Popen (espeak_command (safe_text text))) s
      in case popen_result ev of
           None \<Rightarrow> Inr (emit (Print ('' Speaking: '' @ safe_text text)) s1)
         | Some e \<Rightarrow>
             if is_Exception (cls e)
             then Inr (emit (Print ('' Speech failed: '' @ msg e)) s1)
             else Inl (e, s1))"

definition vibrate :: "rat \<Rightarrow> state \<Rightarrow> state" where
  "vibrate duration s =
     gpio_output VibPin LOW (emit (Sleep duration) (gpio_output VibPin HIGH s))"

text \<open>\<open>setup\<close> of the source (the name is a keyword here).\<close>

definition setup_gpio :: "state \<Rightarrow> state" where
  "setup_gpio s =
     (let s1 = emit GpioSetmode s;
          s2 = emit (GpioSetup BtnPin GPIO_IN) (s1\<lparr>channels := channels s1 @ [BtnPin]\<rparr>);
          s3 = emit (GpioSetup VibPin GPIO_OUT) (s2\<lparr>channels := channels s2 @ [VibPin]\<rparr>);
          s4 = gpio_output VibPin LOW s3
      in emit (Print '' Setup complete. Waiting for button press...'') s4)"

definition queue_put :: "string \<Rightarrow> state \<Rightarrow> state" where
  "queue_put task s = emit (QueuePut task) (s\<lparr>task_queue := task_queue s @ [task]\<rparr>)"

definition button_pressed :: "nat \<Rightarrow> state \<Rightarrow> state" where
  "button_pressed channel s =
     queue_put ''capture''
       (vibrate 0.2 (emit (Print '' Button pressed! Queuing capture task...'') s))"

text \<open>The \<open>except Exception as e\<close> clause of the loop.\<close>

definition on_error :: "exn \<Rightarrow> state \<Rightarrow> (exn \<times> state) + state" where
  "on_error e s =
     (if is_Exception (cls e) then Inr (vibrate 1.0 (emit (Print ('' Error: '' @ msg e)) s))
      else Inl (e, s))"

text \<open>The \<open>try\<close> statement of the loop, for a task that is \<open>"capture"\<close>.\<close>

definition capture_cycle :: "pylib \<Rightarrow> env \<Rightarrow> state \<Rightarrow> (exn \<times> state) + state" where
  "capture_cycle lib ev s =
     (case analyze_image lib ev s of
        Inl (e, s1) \<Rightarrow> on_error e s1
      | Inr (description, s1) \<Rightarrow>
          (let s2 = vibrate 0.5 s1;
               s3 = emit (Print ('' Description: '' @ description)) s2
           in case speak description ev s3 of
                Inl (e, s4) \<Rightarrow> on_error e s4
              | Inr s4 \<Rightarrow> Inr s4))"

text \<open>\<open>sleep(0.1)\<close> at the end of a pass: the place where the loop waits, and where
  the interrupt signal reaches it.\<close>

definition idle_sleep :: "env \<Rightarrow> state \<Rightarrow> (exn \<times> state) + state" where
  "idle_sleep ev s =
     (let s1 = emit (Sleep 0.1) s
      in case sleep_result ev of None \<Rightarrow> Inr s1 | Some e \<Rightarrow> Inl (e, s1))"

text \<open>One pass through the body of \<open>while True\<close>.\<close>

definition process_tasks_body :: "pylib \<Rightarrow> env \<Rightarrow> state \<Rightarrow> (exn \<times> state) + state" where
  "process_tasks_body lib ev s =
     (case task_queue s of
        [] \<Rightarrow> idle_sleep ev s
      | task # rest \<Rightarrow>
          (let s1 = emit (QueueGet task) (s\<lparr>task_queue := rest\<rparr>)
           in if task = ''capture'' then
                (case capture_cycle lib ev s1 of
                   Inl x \<Rightarrow> Inl x
                 | Inr s2 \<Rightarrow> idle_sleep ev s2)
              else idle_sleep ev s1))"

text \<open>
  The loop never returns; it can only be left by an exception. It is run here over a
  finite schedule: \<open>Poll ev\<close> is one pass through the body with the answers \<open>ev\<close>,
  \<open>Press\<close> is the GPIO library calling \<open>button_pressed\<close> between two passes. \<open>Inr s\<close>
  says that the loop is still running after the schedule, \<open>Inl (e, s)\<close> that \<open>e\<close> left
  it.
\<close>

datatype step = Press | Poll env

fun process_tasks :: "pylib \<Rightarrow> step list \<Rightarrow> state \<Rightarrow> (exn \<times> state) + state" where
  "process_tasks lib [] s = Inr s"
| "process_tasks lib (Press # sched) s = process_tasks lib sched (button_pressed BtnPin s)"
| "process_tasks lib (Poll ev # sched) s =
     (case process_tasks_body lib ev s of
        Inl x \<Rightarrow> Inl x
      | Inr s1 \<Rightarrow> process_tasks lib sched s1)"

definition destroy :: "state \<Rightarrow> state" where
  "destroy s =
     emit (Print '' GPIO cleaned up.'')
       (emit GpioCleanup ((gpio_output VibPin LOW s)\<lparr>channels := []\<rparr>))"

datatype outcome = Running state | Finished state | Uncaught exn state

definition main :: "pylib \<Rightarrow> step list \<Rightarrow> state \<Rightarrow> outcome" where
  "main lib sched s =
     (let s1 = setup_gpio s;
          s2 = emit (GpioAddEventDetect BtnPin 500) s1
      in case process_tasks lib sched s2 of
           Inr s3 \<Rightarrow> Running s3
         | Inl (e, s3) \<Rightarrow>
             if cls e = KeyboardInterrupt then Finished (destroy s3) else Uncaught e s3)"

subsection \<open>Reading a run\<close>

text \<open>The state in which a call ended, whether it returned or raised.\<close>

definition state_of :: "(exn \<times> state) + state \<Rightarrow> state" where
  "state_of r = (case r of Inl (e, s) \<Rightarrow> s | Inr s \<Rightarrow> s)"

definition still_running :: "(exn \<times> state) + state \<Rightarrow> bool" where
  "still_running r = (case r of Inl x \<Rightarrow> False | Inr s \<Rightarrow> True)"

text \<open>How the program ended, and the state in which it ended or was last seen.\<close>

fun finished :: "outcome \<Rightarrow> bool" where
  "finished (Finished s) = True"
| "finished _ = False"

fun outcome_state :: "outcome \<Rightarrow> state" where
  "outcome_state (Running s) = s"
| "outcome_state (Finished s) = s"
| "outcome_state (Uncaught e s) = s"

text \<open>The events of one pass through the loop body.\<close>

definition cycle_events :: "pylib \<Rightarrow> env \<Rightarrow> state \<Rightarrow> event list" where
  "cycle_events lib ev s =
     drop (length (trace s)) (trace (state_of (process_tasks_body lib ev s)))"

fun is_capture_call :: "event \<Rightarrow> bool" where
  "is_capture_call (SubprocessRun c) = True"
| "is_capture_call _ = False"

fun is_analysis_call :: "event \<Rightarrow> bool" where
  "is_analysis_call (ResponsesCreate m p u) = True"
| "is_analysis_call _ = False"

fun is_speech_call :: "event \<Rightarrow> bool" where
  "is_speech_call (Popen c) = True"
| "is_speech_call _ = False"

fun is_gpio_output :: "event \<Rightarrow> bool" where
  "is_gpio_output (GpioOutput p v) = True"
| "is_gpio_output _ = False"

text \<open>The tasks put on the queue and taken from it, in the order of the trace.\<close>

fun puts :: "event list \<Rightarrow> string list" where
  "puts [] = []"
| "puts (QueuePut t # es) = t # puts es"
| "puts (e # es) = puts es"

fun gets :: "event list \<Rightarrow> string list" where
  "gets [] = []"
| "gets (QueueGet t # es) = t # gets es"
| "gets (e # es) = gets es"

fun presses :: "step list \<Rightarrow> nat" where
  "presses [] = 0"
| "presses (Press # sched) = Suc (presses sched)"
| "presses (Poll ev # sched) = presses sched"

text \<open>The exceptions that the calls to the outside raise under the answers \<open>ev\<close>.\<close>

definition service_errors :: "env \<Rightarrow> exn list" where
  "service_errors ev =
     (case capture_result ev of SpawnFailed e \<Rightarrow> [e] | Exited c \<Rightarrow> [])
     @ (case read_result ev of Inl e \<Rightarrow> [e] | Inr b \<Rightarrow> [])
     @ (case api_result ev of Inl e \<Rightarrow> [e] | Inr r \<Rightarrow> [])
     @ (case popen_result ev of Some e \<Rightarrow> [e] | None \<Rightarrow> [])"

subsection \<open>The extraction rule in the words of the specification\<close>

text \<open>
  The specification names two shapes of a response and a fall-back: a direct text
  field; a list of items, each with a list of content parts, of which the first part
  of a text type is taken; and the whole response as a string when neither gives
  text.
\<close>

definition direct_text :: "pyval \<Rightarrow> string option" where
  "direct_text resp =
     (case attr resp ''output_text'' of Some (PyStr t) \<Rightarrow> Some t | _ \<Rightarrow> None)"

fun elements :: "pyval \<Rightarrow> pyval list" where
  "elements (PyList xs) = xs"
| "elements _ = []"

definition parts_of_items :: "pyval list \<Rightarrow> pyval list" where
  "parts_of_items items =
     concat (map (\<lambda>item. elements (getattr item ''content'' (PyList []))) items)"

definition content_parts :: "pyval \<Rightarrow> pyval list" where
  "content_parts resp = parts_of_items (elements (getattr resp ''output'' (PyList [])))"

definition first_text_in :: "pyval list \<Rightarrow> string option" where
  "first_text_in parts =
     (case filter text_typed parts of
        [] \<Rightarrow> None
      | part # rest \<Rightarrow> (case attr part ''text'' of Some (PyStr t) \<Rightarrow> Some t | _ \<Rightarrow> None))"

definition first_text_part :: "pyval \<Rightarrow> string option" where
  "first_text_part resp = first_text_in (content_parts resp)"

definition extract_text_spec :: "pylib \<Rightarrow> pyval \<Rightarrow> string" where
  "extract_text_spec lib resp =
     (case direct_text resp of
        Some t \<Rightarrow> strip t
      | None \<Rightarrow>
          (case first_text_part resp of
             Some t \<Rightarrow> strip t
           | None \<Rightarrow> py_str lib resp))"

text \<open>A response whose text is empty or absent: the text that the rule finds is empty
  once stripped, or the rule finds none.\<close>

definition empty_or_absent :: "pyval \<Rightarrow> bool" where
  "empty_or_absent resp =
     (case direct_text resp of
        Some t \<Rightarrow> strip t = []
      | None \<Rightarrow> (case first_text_part resp of Some t \<Rightarrow> strip t = [] | None \<Rightarrow> True))"

text \<open>The description that \<open>analyze_image\<close> takes from a response.\<close>

definition description_of :: "pylib \<Rightarrow> pyval \<Rightarrow> string" where
  "description_of lib resp = (case extract_text lib resp of Inr d \<Rightarrow> d | Inl c \<Rightarrow> [])"

subsection \<open>Sample inputs\<close>

definition sample_lib :: pylib where
  "sample_lib = \<lparr>py_str = (\<lambda>v. ''<Response>''), b64encode = (\<lambda>b. ''/9j/4AAQ'')\<rparr>"

definition queued :: "string list \<Rightarrow> state" where
  "queued q = \<lparr>task_queue = q, levels = (\<lambda>p. LOW), channels = [BtnPin, VibPin], trace = []\<rparr>"

definition power_on :: state where
  "power_on = \<lparr>task_queue = [], levels = (\<lambda>p. LOW), channels = [], trace = []\<rparr>"

definition chair_response :: pyval where
  "chair_response = PyObj [(''output_text'', PyStr '' A red chair near a window. '')]"

definition empty_response :: pyval where
  "empty_response = PyObj [(''output_text'', PyStr '''')]"

definition reasoning_response :: pyval where
  "reasoning_response =
     PyObj [(''output'',
       PyList [PyObj [(''type'', PyStr ''reasoning''), (''content'', PyNone)],
               PyObj [(''type'', PyStr ''message''),
                      (''content'',
                         PyList [PyObj [(''type'', PyStr ''output_text''),
                                        (''text'', PyStr ''A red chair.'')]])]])]"

text \<open>The same response with a first item that has no content at all.\<close>

definition plain_response :: pyval where
  "plain_response =
     PyObj [(''output'',
       PyList [PyObj [(''type'', PyStr ''reasoning'')],
               PyObj [(''type'', PyStr ''message''),
                      (''content'',
                         PyList [PyObj [(''type'', PyStr ''output_text''),
                                        (''text'', PyStr ''A red chair.'')]])]])]"

text \<open>A response whose only text is a space and a no-break space (U+00A0), in a
  content part.\<close>

definition blank_response :: pyval where
  "blank_response =
     PyObj [(''output'',
       PyList [PyObj [(''type'', PyStr ''message''),
                      (''content'',
                         PyList [PyObj [(''type'', PyStr ''output_text''),
                                        (''text'', PyStr [CHR 0x20, CHR 0xC2, CHR 0xA0])]])]])]"

definition quoted_response :: pyval where
  "quoted_response =
     PyObj [(''output_text'',
             PyStr (''A '' @ [CHR 0x22] @ ''red'' @ [CHR 0x22] @ '' chair'' @ [CHR 0x27]
                    @ ''s leg.''))]"

definition all_well :: env where
  "all_well = \<lparr>capture_result = Exited 0, read_result = Inr ''JFIF'',
                api_result = Inr chair_response, popen_result = None,
                sleep_result = None\<rparr>"

definition camera_fails :: env where
  "camera_fails = all_well\<lparr>capture_result := Exited 1\<rparr>"

definition network_fails :: env where
  "network_fails = all_well\<lparr>api_result := Inl (Exn APIError ''Connection error.'')\<rparr>"

definition empty_answer :: env where
  "empty_answer = all_well\<lparr>api_result := Inr empty_response\<rparr>"

definition blank_answer :: env where
  "blank_answer = all_well\<lparr>api_result := Inr blank_response\<rparr>"

definition quoted_answer :: env where
  "quoted_answer = all_well\<lparr>api_result := Inr quoted_response\<rparr>"

definition speech_fails :: env where
  "speech_fails = all_well\<lparr>popen_result := Some (Exn OSError ''Cannot allocate memory'')\<rparr>"

definition interrupted :: env where
  "interrupted = all_well\<lparr>sleep_result := Some (Exn KeyboardInterrupt [])\<rparr>"

section \<open>Properties\<close>

subsection \<open>Facts about the state\<close>

lemma emit_simps [simp]:
  "trace (emit e s) = trace s @ [e]"
  "task_queue (emit e s) = task_queue s"
  "levels (emit e s) = levels s"
  "channels (emit e s) = channels s"
  by (simp_all add: emit_def)

lemma gpio_output_simps [simp]:
  "trace (gpio_output p v s) = trace s @ [GpioOutput p v]"
  "task_queue (gpio_output p v s) = task_queue s"
  "levels (gpio_output p v s) = (levels s)(p := v)"
  "channels (gpio_output p v s) = channels s"
  by (simp_all add: gpio_output_def)

lemma vibrate_simps [simp]:
  "trace (vibrate d s) = trace s @ [GpioOutput VibPin HIGH, Sleep d, GpioOutput VibPin LOW]"
  "task_queue (vibrate d s) = task_queue s"
  "levels (vibrate d s) = (levels s)(VibPin := LOW)"
  "channels (vibrate d s) = channels s"
  by (simp_all add: vibrate_def)

lemma puts_append [simp]: "puts (xs @ ys) = puts xs @ puts ys"
  by (induction xs rule: puts.induct) simp_all

lemma gets_append [simp]: "gets (xs @ ys) = gets xs @ gets ys"
  by (induction xs rule: gets.induct) simp_all

subsection \<open>Facts about the extraction\<close>

lemma scan_parts_raises: "scan_parts parts = Inl e \<Longrightarrow> is_Exception e"
  by (induction parts)
     (auto simp: dot_def split: if_splits option.splits sum.splits pyval.splits elim: strip_method.elims)

lemma scan_items_raises: "scan_items items = Inl e \<Longrightarrow> is_Exception e"
  by (induction items)
     (auto split: sum.splits option.splits dest: scan_parts_raises elim: py_iter.elims)

lemma extract_text_try_raises: "extract_text_try resp = Inl e \<Longrightarrow> is_Exception e"
  by (auto simp: extract_text_try_def dot_def split: if_splits option.splits sum.splits
           dest: scan_items_raises elim: py_iter.elims strip_method.elims)

lemma extract_text_returns:
  "extract_text lib resp =
     Inr (case extract_text_try resp of Inr (Some r) \<Rightarrow> r | _ \<Rightarrow> py_str lib resp)"
  by (auto simp: extract_text_def split: sum.splits option.splits dest: extract_text_try_raises)

lemma first_text_in_append:
  "first_text_in (xs @ ys) =
     (if filter text_typed xs = [] then first_text_in ys else first_text_in xs)"
  by (cases "filter text_typed xs") (simp_all add: first_text_in_def)

lemma scan_parts_found:
  "scan_parts parts = Inr (Some r) \<Longrightarrow>
     filter text_typed parts \<noteq> [] \<and> map_option strip (first_text_in parts) = Some r"
  by (induction parts)
     (auto simp: first_text_in_def dot_def split: if_splits option.splits sum.splits
           elim: strip_method.elims)

lemma scan_parts_none:
  "scan_parts parts = Inr None \<Longrightarrow> filter text_typed parts = []"
  by (induction parts) (auto split: if_splits option.splits sum.splits)

lemma text_typed_PyStr [simp]: "\<not> text_typed (PyStr c)"
  by (simp add: text_typed_def getattr_def)

lemma py_iter_elements:
  "py_iter v = Inr xs \<Longrightarrow>
     filter text_typed xs = filter text_typed (elements v)
     \<and> first_text_in xs = first_text_in (elements v)"
  by (cases v) (auto simp: first_text_in_def filter_empty_conv)

lemma scan_items_found:
  "scan_items items = Inr (Some r) \<Longrightarrow>
     map_option strip (first_text_in (parts_of_items items)) = Some r"
proof (induction items)
  case Nil
  then show ?case by simp
next
  case (Cons item rest)
  obtain parts where it: "py_iter (getattr item ''content'' (PyList [])) = Inr parts"
    using Cons.prems by (auto split: sum.splits)
  note el = py_iter_elements [OF it]
  have cons: "parts_of_items (item # rest) =
      elements (getattr item ''content'' (PyList [])) @ parts_of_items rest"
    by (simp add: parts_of_items_def)
  show ?case
  proof (cases "scan_parts parts")
    case (Inl e)
    with Cons.prems it show ?thesis by simp
  next
    case (Inr found)
    show ?thesis
    proof (cases found)
      case None
      with Inr have "filter text_typed parts = []" by (simp add: scan_parts_none)
      moreover from None Inr Cons.prems it have "scan_items rest = Inr (Some r)" by simp
      ultimately show ?thesis
        using Cons.IH el by (simp add: first_text_in_append cons)
    next
      case (Some r')
      with Inr Cons.prems it have "r' = r" by simp
      with Some Inr scan_parts_found [of parts r] el show ?thesis
        by (simp add: first_text_in_append cons)
    qed
  qed
qed

lemma scan_chars: "scan_items (map PyStr cs) = Inr None"
  by (induction cs) (simp_all add: getattr_def)

lemma extract_text_try_found:
  "extract_text_try resp = Inr (Some r) \<Longrightarrow> extract_text_spec lib resp = r"
proof (cases "attr resp ''output_text''")
  case None
  assume a: "extract_text_try resp = Inr (Some r)"
  from a None obtain items where
    it: "py_iter (getattr resp ''output'' (PyList [])) = Inr items"
    and sc: "scan_items items = Inr (Some r)"
    by (auto simp: extract_text_try_def hasattr_def split: sum.splits)
  from scan_items_found [OF sc] py_iter_elements [OF it] scan_chars
  have "map_option strip (first_text_part resp) = Some r"
    using sc it
    by (cases "getattr resp ''output'' (PyList [])")
       (auto simp: first_text_part_def content_parts_def)
  with None show ?thesis
    by (auto simp: extract_text_spec_def direct_text_def)
next
  case (Some v)
  assume "extract_text_try resp = Inr (Some r)"
  with Some show ?thesis
    by (cases v)
       (auto simp: extract_text_try_def hasattr_def dot_def extract_text_spec_def direct_text_def)
qed

lemma extract_text_refines:
  "extract_text lib resp = Inr (extract_text_spec lib resp)
     \<or> extract_text lib resp = Inr (py_str lib resp)"
proof (cases "extract_text_try resp")
  case (Inl e)
  then show ?thesis by (simp add: extract_text_returns)
next
  case (Inr found)
  show ?thesis
  proof (cases found)
    case None
    with Inr show ?thesis by (simp add: extract_text_returns)
  next
    case (Some r)
    with Inr show ?thesis
      using extract_text_try_found [of resp r lib]
      by (simp add: extract_text_returns)
  qed
qed

lemma description_of_returned: "extract_text lib resp = Inr (description_of lib resp)"
  by (simp add: description_of_def extract_text_returns)

subsection \<open>Facts about one cycle\<close>

lemma capture_image_ok:
  "capture_result ev = Exited 0 \<Longrightarrow>
   capture_image path ev s =
     Inr (emit (Print '' Image captured successfully!'')
           (emit (SubprocessRun [''fswebcam'', ''-r'', RESOLUTION, ''-S'', ''2'', ''--no-banner'', path])
             (emit (Print '' Capturing image...'') s)))"
  by (simp add: capture_image_def Let_def)

lemma capture_image_raises:
  "capture_result ev = Exited code \<and> code \<noteq> 0 \<and> e = Exn CalledProcessError ''non-zero exit status''
     \<or> capture_result ev = SpawnFailed e \<Longrightarrow>
   capture_image path ev s =
     Inl (e, emit (SubprocessRun [''fswebcam'', ''-r'', RESOLUTION, ''-S'', ''2'', ''--no-banner'', path])
               (emit (Print '' Capturing image...'') s))"
  by (auto simp: capture_image_def Let_def)

lemma analyze_image_ok:
  assumes "capture_result ev = Exited 0" and "read_result ev = Inr bytes"
    and "api_result ev = Inr resp" and "extract_text lib resp = Inr d"
  shows "analyze_image lib ev s =
     Inr (d, emit (Print ('' AI says: '' @ d))
              (emit (ResponsesCreate MODEL prompt (''data:image/jpeg;base64,'' @ b64encode lib bytes))
                (emit (Print '' Sending image to OpenAI...'')
                  (emit (OpenRead IMAGE_PATH)
                    (emit (Print '' Image captured successfully!'')
                      (emit (SubprocessRun [''fswebcam'', ''-r'', RESOLUTION, ''-S'', ''2'', ''--no-banner'', IMAGE_PATH])
                        (emit (Print '' Capturing image...'') s)))))))"
  using assms by (simp add: analyze_image_def capture_image_ok to_data_url_def Let_def)

lemma analyze_image_api_raises:
  assumes "capture_result ev = Exited 0" and "read_result ev = Inr bytes"
    and "api_result ev = Inl e"
  shows "analyze_image lib ev s =
     Inl (e, emit (ResponsesCreate MODEL prompt (''data:image/jpeg;base64,'' @ b64encode lib bytes))
                (emit (Print '' Sending image to OpenAI...'')
                  (emit (OpenRead IMAGE_PATH)
                    (emit (Print '' Image captured successfully!'')
                      (emit (SubprocessRun [''fswebcam'', ''-r'', RESOLUTION, ''-S'', ''2'', ''--no-banner'', IMAGE_PATH])
                        (emit (Print '' Capturing image...'') s))))))"
  using assms by (simp add: analyze_image_def capture_image_ok to_data_url_def Let_def)

lemma analyze_image_capture_raises:
  assumes "capture_result ev = Exited code \<and> code \<noteq> 0 \<and> e = Exn CalledProcessError ''non-zero exit status''
     \<or> capture_result ev = SpawnFailed e"
  shows "analyze_image lib ev s =
     Inl (e, emit (SubprocessRun [''fswebcam'', ''-r'', RESOLUTION, ''-S'', ''2'', ''--no-banner'', IMAGE_PATH])
               (emit (Print '' Capturing image...'') s))"
  by (simp add: analyze_image_def capture_image_raises [OF assms])

lemma success_cycle:
  assumes "task_queue s = ''capture'' # rest"
    and "capture_result ev = Exited 0" and "read_result ev = Inr bytes"
    and "api_result ev = Inr resp" and "extract_text lib resp = Inr d"
  shows "cycle_events lib ev s =
     [QueueGet ''capture'', Print '' Capturing image...'',
      SubprocessRun [''fswebcam'', ''-r'', RESOLUTION, ''-S'', ''2'', ''--no-banner'', IMAGE_PATH],
      Print '' Image captured successfully!'', OpenRead IMAGE_PATH,
      Print '' Sending image to OpenAI...'',
      ResponsesCreate MODEL prompt (''data:image/jpeg;base64,'' @ b64encode lib bytes),
      Print ('' AI says: '' @ d),
      GpioOutput VibPin HIGH, Sleep 0.5, GpioOutput VibPin LOW,
      Print ('' Description: '' @ d),
      Popen (espeak_command (safe_text d))]
     @ (case popen_result ev of
          None \<Rightarrow> [Print ('' Speaking: '' @ safe_text d), Sleep 0.1]
        | Some e \<Rightarrow> if is_Exception (cls e)
                     then [Print ('' Speech failed: '' @ msg e), Sleep 0.1] else [])"
  using assms(1)
  by (simp add: cycle_events_def process_tasks_body_def capture_cycle_def
        analyze_image_ok [OF assms(2-5)] speak_def on_error_def idle_sleep_def state_of_def
        Let_def split: option.splits)

lemma extract_text_empty:
  "direct_text resp = Some t \<Longrightarrow> extract_text lib resp = Inr (strip t)"
  by (auto simp: direct_text_def extract_text_def extract_text_try_def hasattr_def dot_def
           split: option.splits pyval.splits)

lemma extract_text_absent:
  assumes "direct_text resp = None" and "first_text_part resp = None"
  shows "extract_text lib resp = Inr (py_str lib resp)"
proof -
  from assms have "extract_text_spec lib resp = py_str lib resp"
    by (simp add: extract_text_spec_def)
  with extract_text_refines [of lib resp] show ?thesis by auto
qed

lemma safe_text_filter:
  "safe_text d = filter (\<lambda>c. c \<noteq> CHR 0x22 \<and> c \<noteq> CHR 0x27) d"
  by (auto simp: safe_text_def remove_char_def intro: filter_cong)

subsection \<open>Facts about the queue\<close>

lemma button_pressed_simps:
  "trace (button_pressed ch s) =
     trace s @ [Print '' Button pressed! Queuing capture task...'',
                GpioOutput VibPin HIGH, Sleep 0.2, GpioOutput VibPin LOW,
                QueuePut ''capture'']"
  "task_queue (button_pressed ch s) = task_queue s @ [''capture'']"
  "levels (button_pressed ch s) = (levels s)(VibPin := LOW)"
  "channels (button_pressed ch s) = channels s"
  by (simp_all add: button_pressed_def queue_put_def)

lemma capture_cycle_queue:
  "task_queue (state_of (capture_cycle lib ev s)) = task_queue s
   \<and> gets (trace (state_of (capture_cycle lib ev s))) = gets (trace s)
   \<and> puts (trace (state_of (capture_cycle lib ev s))) = puts (trace s)"
  by (auto simp: capture_cycle_def analyze_image_def capture_image_def to_data_url_def
        speak_def on_error_def state_of_def Let_def
        split: sum.splits option.splits proc_result.splits prod.splits if_splits)

lemma idle_sleep_queue:
  "task_queue (state_of (idle_sleep ev s)) = task_queue s
   \<and> gets (trace (state_of (idle_sleep ev s))) = gets (trace s)
   \<and> puts (trace (state_of (idle_sleep ev s))) = puts (trace s)"
  by (auto simp: idle_sleep_def state_of_def Let_def split: option.splits)

lemma process_tasks_body_queue:
  "gets (trace (state_of (process_tasks_body lib ev s)))
     @ task_queue (state_of (process_tasks_body lib ev s)) = gets (trace s) @ task_queue s
   \<and> puts (trace (state_of (process_tasks_body lib ev s))) = puts (trace s)"
proof (cases "task_queue s")
  case Nil
  then show ?thesis
    using idle_sleep_queue [of ev s] by (simp add: process_tasks_body_def)
next
  case (Cons task rest)
  define s1 where "s1 = emit (QueueGet task) (s\<lparr>task_queue := rest\<rparr>)"
  have s1: "task_queue s1 = rest" "gets (trace s1) = gets (trace s) @ [task]"
    "puts (trace s1) = puts (trace s)"
    by (simp_all add: s1_def)
  show ?thesis
  proof (cases "task = ''capture''")
    case False
    with Cons have "process_tasks_body lib ev s = idle_sleep ev s1"
      by (simp add: process_tasks_body_def s1_def)
    with Cons show ?thesis
      using idle_sleep_queue [of ev s1] s1 by simp
  next
    case True
    with Cons have body: "process_tasks_body lib ev s =
        (case capture_cycle lib ev s1 of Inl x \<Rightarrow> Inl x | Inr s2 \<Rightarrow> idle_sleep ev s2)"
      by (simp add: process_tasks_body_def s1_def)
    show ?thesis
    proof (cases "capture_cycle lib ev s1")
      case (Inl x)
      with Cons show ?thesis
        using capture_cycle_queue [of lib ev s1] s1 by (simp add: body)
    next
      case (Inr s2)
      with Cons show ?thesis
        using capture_cycle_queue [of lib ev s1] idle_sleep_queue [of ev s2] s1
        by (simp add: body state_of_def)
    qed
  qed
qed

lemma fifo_invariant:
  "still_running (process_tasks lib sched s) \<Longrightarrow>
     gets (trace (state_of (process_tasks lib sched s)))
       @ task_queue (state_of (process_tasks lib sched s))
     = gets (trace s) @ task_queue s @ replicate (presses sched) ''capture''
   \<and> puts (trace (state_of (process_tasks lib sched s)))
     = puts (trace s) @ replicate (presses sched) ''capture''"
proof (induction sched arbitrary: s)
  case Nil
  then show ?case by (simp add: state_of_def)
next
  case (Cons st sched)
  show ?case
  proof (cases st)
    case Press
    with Cons.prems have "still_running (process_tasks lib sched (button_pressed BtnPin s))"
      by simp
    from Cons.IH [OF this] Press show ?thesis
      by (simp add: button_pressed_simps replicate_app_Cons_same)
  next
    case (Poll ev)
    show ?thesis
    proof (cases "process_tasks_body lib ev s")
      case (Inl x)
      with Poll Cons.prems show ?thesis by (simp add: still_running_def)
    next
      case (Inr s1)
      with Poll Cons.prems have "still_running (process_tasks lib sched s1)" by simp
      from Cons.IH [OF this] Poll Inr process_tasks_body_queue [of lib ev s]
      show ?thesis by (simp add: state_of_def)
    qed
  qed
qed

lemma process_tasks_body_head:
  assumes "task_queue s = task # rest"
  shows "gets (trace (state_of (process_tasks_body lib ev s))) = gets (trace s) @ [task]
     \<and> task_queue (state_of (process_tasks_body lib ev s)) = rest"
proof -
  define s1 where "s1 = emit (QueueGet task) (s\<lparr>task_queue := rest\<rparr>)"
  have s1: "task_queue s1 = rest" "gets (trace s1) = gets (trace s) @ [task]"
    by (simp_all add: s1_def)
  show ?thesis
  proof (cases "task = ''capture''")
    case False
    with assms have "process_tasks_body lib ev s = idle_sleep ev s1"
      by (simp add: process_tasks_body_def s1_def)
    then show ?thesis
      using idle_sleep_queue [of ev s1] s1 by simp
  next
    case True
    with assms have body: "process_tasks_body lib ev s =
        (case capture_cycle lib ev s1 of Inl x \<Rightarrow> Inl x | Inr s2 \<Rightarrow> idle_sleep ev s2)"
      by (simp add: process_tasks_body_def s1_def)
    show ?thesis
    proof (cases "capture_cycle lib ev s1")
      case (Inl x)
      then show ?thesis
        using capture_cycle_queue [of lib ev s1] s1 by (simp add: body)
    next
      case (Inr s2)
      then show ?thesis
        using capture_cycle_queue [of lib ev s1] idle_sleep_queue [of ev s2] s1
        by (simp add: body state_of_def)
    qed
  qed
qed

lemma process_tasks_body_idle:
  "task_queue s = [] \<Longrightarrow>
     task_queue (state_of (process_tasks_body lib ev s)) = []
     \<and> gets (trace (state_of (process_tasks_body lib ev s))) = gets (trace s)"
  using idle_sleep_queue [of ev s] by (simp add: process_tasks_body_def)

lemma polls_take_prefix:
  "still_running (process_tasks lib (map Poll evs) s) \<Longrightarrow>
     task_queue (state_of (process_tasks lib (map Poll evs) s))
       = drop (length evs) (task_queue s)
     \<and> gets (trace (state_of (process_tasks lib (map Poll evs) s)))
       = gets (trace s) @ take (length evs) (task_queue s)"
proof (induction evs arbitrary: s)
  case Nil
  then show ?case by (simp add: state_of_def)
next
  case (Cons ev evs)
  show ?case
  proof (cases "process_tasks_body lib ev s")
    case (Inl x)
    with Cons.prems show ?thesis by (simp add: still_running_def)
  next
    case (Inr s1)
    with Cons.prems have "still_running (process_tasks lib (map Poll evs) s1)" by simp
    note ih = Cons.IH [OF this]
    show ?thesis
    proof (cases "task_queue s")
      case Nil
      with process_tasks_body_idle [of s lib ev] Inr ih show ?thesis
        by (simp add: state_of_def)
    next
      case (Cons task rest)
      with process_tasks_body_head [of s task rest lib ev] Inr ih show ?thesis
        by (simp add: state_of_def)
    qed
  qed
qed

lemma sample_texts:
  "extract_text sample_lib chair_response = Inr ''A red chair near a window.''"
  by (simp add: extract_text_def extract_text_try_def hasattr_def dot_def
        chair_response_def strip_def is_space_def whitespace_def is_continuation_def)

subsection \<open>Facts about the loop\<close>

lemma capture_cycle_returns:
  assumes "list_all (\<lambda>e. is_Exception (cls e)) (service_errors ev)"
  shows "capture_cycle lib ev s = Inr (state_of (capture_cycle lib ev s))
     \<and> levels (state_of (capture_cycle lib ev s)) VibPin = LOW"
proof (cases "analyze_image lib ev s")
  case (Inl x)
  obtain e s1 where x: "x = (e, s1)" by (cases x)
  from Inl x assms have "is_Exception (cls e)"
    by (auto simp: analyze_image_def capture_image_def to_data_url_def service_errors_def
          extract_text_returns Let_def
          split: sum.splits proc_result.splits if_splits prod.splits)
  with Inl x show ?thesis
    by (simp add: capture_cycle_def on_error_def state_of_def)
next
  case (Inr y)
  obtain d s1 where y: "y = (d, s1)" by (cases y)
  from assms have p: "popen_result ev = Some e \<Longrightarrow> is_Exception (cls e)" for e
    by (simp add: service_errors_def)
  from Inr y show ?thesis
    by (auto simp: capture_cycle_def speak_def state_of_def Let_def p split: option.splits)
qed

lemma process_tasks_append:
  "process_tasks lib (sched @ later) s =
     (case process_tasks lib sched s of
        Inl x \<Rightarrow> Inl x
      | Inr s1 \<Rightarrow> process_tasks lib later s1)"
proof (induction sched arbitrary: s)
  case Nil
  show ?case by simp
next
  case (Cons st sched)
  show ?case
    by (cases st) (simp_all add: Cons.IH split: sum.splits)
qed

lemma destroy_simps:
  "trace (destroy s) = trace s @ [GpioOutput VibPin LOW, GpioCleanup, Print '' GPIO cleaned up.'']"
  "levels (destroy s) = (levels s)(VibPin := LOW)"
  "channels (destroy s) = []"
  "task_queue (destroy s) = task_queue s"
  by (simp_all add: destroy_def)

subsection \<open>Failures of a processing cycle\<close>

text \<open>
  Claim C1. In a pass that takes a \<open>"capture"\<close> task and in which the capture step
  raises (the capture program exits with a status other than zero, or starting it
  raises an error of class \<open>Exception\<close>, such as an I/O error), the events of the pass
  are exactly: the task is taken, the capture program is run, the error is printed, the
  motor is driven high for 1.0 s and low again, and the loop sleeps. The analysis
  service is not called.
\<close>

theorem capture_failure_cycle:
  assumes "task_queue s = ''capture'' # rest"
    and "capture_result ev = Exited code \<and> code \<noteq> 0
           \<and> e = Exn CalledProcessError ''non-zero exit status''
         \<or> capture_result ev = SpawnFailed e \<and> is_Exception (cls e)"
  shows "cycle_events lib ev s =
      [QueueGet ''capture'', Print '' Capturing image...'',
       SubprocessRun [''fswebcam'', ''-r'', RESOLUTION, ''-S'', ''2'', ''--no-banner'', IMAGE_PATH],
       Print ('' Error: '' @ msg e),
       GpioOutput VibPin HIGH, Sleep 1.0, GpioOutput VibPin LOW, Sleep 0.1]
    \<and> \<not> list_ex is_analysis_call (cycle_events lib ev s)"
proof -
  have e: "is_Exception (cls e)" using assms(2) by auto
  have c: "analyze_image lib ev s' =
     Inl (e, emit (SubprocessRun [''fswebcam'', ''-r'', RESOLUTION, ''-S'', ''2'', ''--no-banner'', IMAGE_PATH])
               (emit (Print '' Capturing image...'') s'))" for s'
    using assms(2) by (intro analyze_image_capture_raises) auto
  have "cycle_events lib ev s =
      [QueueGet ''capture'', Print '' Capturing image...'',
       SubprocessRun [''fswebcam'', ''-r'', RESOLUTION, ''-S'', ''2'', ''--no-banner'', IMAGE_PATH],
       Print ('' Error: '' @ msg e),
       GpioOutput VibPin HIGH, Sleep 1.0, GpioOutput VibPin LOW, Sleep 0.1]"
    using assms(1) e
    by (simp add: cycle_events_def process_tasks_body_def capture_cycle_def c
         on_error_def idle_sleep_def state_of_def Let_def split: option.splits)
  then show ?thesis by simp
qed

theorem capture_failure_cycle_witness:
  "task_queue (queued [''capture'']) = ''capture'' # []
   \<and> capture_result camera_fails = Exited 1
   \<and> cycle_events sample_lib camera_fails (queued [''capture'']) =
      [QueueGet ''capture'', Print '' Capturing image...'',
       SubprocessRun [''fswebcam'', ''-r'', ''640x480'', ''-S'', ''2'', ''--no-banner'',
                      ''captured_image.jpg''],
       Print '' Error: non-zero exit status'',
       GpioOutput 29 HIGH, Sleep 1.0, GpioOutput 29 LOW, Sleep 0.1]
   \<and> \<not> list_ex is_analysis_call (cycle_events sample_lib camera_fails (queued [''capture'']))"
  using capture_failure_cycle [of "queued [''capture'']" "[]" camera_fails 1
          "Exn CalledProcessError ''non-zero exit status''" sample_lib]
  by (simp add: queued_def camera_fails_def all_well_def RESOLUTION_def IMAGE_PATH_def VibPin_def)

text \<open>
  Claim C2. In a pass that takes a \<open>"capture"\<close> task, in which the capture and the
  reading of the image succeed and the call of the analysis service raises an error of
  class \<open>Exception\<close>, the error is printed and the motor is driven high for 1.0 s and
  low again. The speech process is not started. The capture program and the analysis
  service have been called once each (nothing is tried again), nothing is put on the
  queue, and the task is gone from it.
\<close>

theorem analysis_failure_cycle:
  assumes "task_queue s = ''capture'' # rest"
    and "capture_result ev = Exited 0" and "read_result ev = Inr bytes"
    and "api_result ev = Inl e" and "is_Exception (cls e)"
  shows "cycle_events lib ev s =
      [QueueGet ''capture'', Print '' Capturing image...'',
       SubprocessRun [''fswebcam'', ''-r'', RESOLUTION, ''-S'', ''2'', ''--no-banner'', IMAGE_PATH],
       Print '' Image captured successfully!'', OpenRead IMAGE_PATH,
       Print '' Sending image to OpenAI...'',
       ResponsesCreate MODEL prompt (''data:image/jpeg;base64,'' @ b64encode lib bytes),
       Print ('' Error: '' @ msg e),
       GpioOutput VibPin HIGH, Sleep 1.0, GpioOutput VibPin LOW, Sleep 0.1]
    \<and> \<not> list_ex is_speech_call (cycle_events lib ev s)
    \<and> length (filter is_capture_call (cycle_events lib ev s)) = 1
    \<and> length (filter is_analysis_call (cycle_events lib ev s)) = 1
    \<and> puts (cycle_events lib ev s) = []
    \<and> task_queue (state_of (process_tasks_body lib ev s)) = rest"
proof -
  have ev: "cycle_events lib ev s =
      [QueueGet ''capture'', Print '' Capturing image...'',
       SubprocessRun [''fswebcam'', ''-r'', RESOLUTION, ''-S'', ''2'', ''--no-banner'', IMAGE_PATH],
       Print '' Image captured successfully!'', OpenRead IMAGE_PATH,
       Print '' Sending image to OpenAI...'',
       ResponsesCreate MODEL prompt (''data:image/jpeg;base64,'' @ b64encode lib bytes),
       Print ('' Error: '' @ msg e),
       GpioOutput VibPin HIGH, Sleep 1.0, GpioOutput VibPin LOW, Sleep 0.1]"
    using assms(1,5)
    by (simp add: cycle_events_def process_tasks_body_def capture_cycle_def
         analyze_image_api_raises [OF assms(2-4)]
         on_error_def idle_sleep_def state_of_def Let_def split: option.splits)
  have q: "task_queue (state_of (process_tasks_body lib ev s)) = rest"
    using assms(1,5)
    by (simp add: process_tasks_body_def capture_cycle_def
         analyze_image_api_raises [OF assms(2-4)]
         on_error_def idle_sleep_def state_of_def Let_def split: option.splits)
  from ev q show ?thesis by simp
qed

theorem analysis_failure_cycle_witness:
  "task_queue (queued [''capture'', ''capture'']) = ''capture'' # [''capture'']
   \<and> capture_result network_fails = Exited 0
   \<and> read_result network_fails = Inr ''JFIF''
   \<and> api_result network_fails = Inl (Exn APIError ''Connection error.'')
   \<and> is_Exception (cls (Exn APIError ''Connection error.''))
   \<and> \<not> list_ex is_speech_call
          (cycle_events sample_lib network_fails (queued [''capture'', ''capture'']))
   \<and> task_queue (state_of (process_tasks_body sample_lib network_fails
          (queued [''capture'', ''capture'']))) = [''capture'']"
  using analysis_failure_cycle [of "queued [''capture'', ''capture'']" "[''capture'']"
          network_fails "''JFIF''" "Exn APIError ''Connection error.''" sample_lib]
  by (simp add: queued_def network_fails_def all_well_def)

text \<open>
  Claim C3, as the code has it. The loop has no test for an empty description. In
  every pass that takes a \<open>"capture"\<close> task and in which capture and reading succeed and
  the analysis service returns a response, whatever its text, the call of
  \<open>extract_text\<close> returns a description, the motor is driven high for 0.5 s and low
  again, and then the speech process is started with the description; the pulse of
  1.0 s does not occur. For a response whose text is empty or absent the description
  is the empty string or the response as a string: it is empty when the direct text
  field is empty once stripped, and it is the response as a string when the response
  has neither a direct text nor a text part.
\<close>

theorem empty_result_cycle:
  assumes "task_queue s = ''capture'' # rest"
    and "capture_result ev = Exited 0" and "read_result ev = Inr bytes"
    and "api_result ev = Inr resp"
  shows "extract_text lib resp = Inr (description_of lib resp)
    \<and> prefix
      [QueueGet ''capture'', Print '' Capturing image...'',
       SubprocessRun [''fswebcam'', ''-r'', RESOLUTION, ''-S'', ''2'', ''--no-banner'', IMAGE_PATH],
       Print '' Image captured successfully!'', OpenRead IMAGE_PATH,
       Print '' Sending image to OpenAI...'',
       ResponsesCreate MODEL prompt (''data:image/jpeg;base64,'' @ b64encode lib bytes),
       Print ('' AI says: '' @ description_of lib resp),
       GpioOutput VibPin HIGH, Sleep 0.5, GpioOutput VibPin LOW,
       Print ('' Description: '' @ description_of lib resp),
       Popen (espeak_command (safe_text (description_of lib resp)))]
      (cycle_events lib ev s)
    \<and> Sleep 1.0 \<notin> set (cycle_events lib ev s)
    \<and> (empty_or_absent resp \<longrightarrow>
         description_of lib resp = [] \<or> description_of lib resp = py_str lib resp)
    \<and> (direct_text resp = Some t \<and> strip t = [] \<longrightarrow> description_of lib resp = [])
    \<and> (direct_text resp = None \<and> first_text_part resp = None \<longrightarrow>
         description_of lib resp = py_str lib resp)"
proof -
  note x = description_of_returned [of lib resp]
  have events: "prefix
      [QueueGet ''capture'', Print '' Capturing image...'',
       SubprocessRun [''fswebcam'', ''-r'', RESOLUTION, ''-S'', ''2'', ''--no-banner'', IMAGE_PATH],
       Print '' Image captured successfully!'', OpenRead IMAGE_PATH,
       Print '' Sending image to OpenAI...'',
       ResponsesCreate MODEL prompt (''data:image/jpeg;base64,'' @ b64encode lib bytes),
       Print ('' AI says: '' @ description_of lib resp),
       GpioOutput VibPin HIGH, Sleep 0.5, GpioOutput VibPin LOW,
       Print ('' Description: '' @ description_of lib resp),
       Popen (espeak_command (safe_text (description_of lib resp)))]
      (cycle_events lib ev s)
    \<and> Sleep 1.0 \<notin> set (cycle_events lib ev s)"
    by (simp add: success_cycle [OF assms x] split: option.splits)
  have rule: "description_of lib resp = extract_text_spec lib resp
      \<or> description_of lib resp = py_str lib resp"
    using extract_text_refines [of lib resp] x by auto
  have empty: "empty_or_absent resp \<Longrightarrow>
      extract_text_spec lib resp = [] \<or> extract_text_spec lib resp = py_str lib resp"
    by (auto simp: empty_or_absent_def extract_text_spec_def split: option.splits)
  have direct: "direct_text resp = Some t \<Longrightarrow> description_of lib resp = strip t"
    using extract_text_empty [of resp t lib] x by simp
  have absent: "direct_text resp = None \<Longrightarrow> first_text_part resp = None \<Longrightarrow>
      description_of lib resp = py_str lib resp"
    using extract_text_absent [of resp lib] x by simp
  from x events rule empty direct absent show ?thesis by auto
qed

theorem empty_result_cycle_witness:
  "task_queue (queued [''capture'']) = ''capture'' # []
   \<and> capture_result blank_answer = Exited 0
   \<and> read_result blank_answer = Inr ''JFIF''
   \<and> api_result blank_answer = Inr blank_response
   \<and> empty_or_absent blank_response
   \<and> description_of sample_lib blank_response = []
   \<and> prefix
      [QueueGet ''capture'', Print '' Capturing image...'',
       SubprocessRun [''fswebcam'', ''-r'', RESOLUTION, ''-S'', ''2'', ''--no-banner'', IMAGE_PATH],
       Print '' Image captured successfully!'', OpenRead IMAGE_PATH,
       Print '' Sending image to OpenAI...'',
       ResponsesCreate MODEL prompt (''data:image/jpeg;base64,'' @ b64encode sample_lib ''JFIF''),
       Print '' AI says: '',
       GpioOutput VibPin HIGH, Sleep 0.5, GpioOutput VibPin LOW,
       Print '' Description: '',
       Popen (espeak_command [])]
      (cycle_events sample_lib blank_answer (queued [''capture'']))
   \<and> Sleep 1.0 \<notin> set (cycle_events sample_lib blank_answer (queued [''capture'']))"
proof -
  have d: "description_of sample_lib blank_response = []"
    by (simp add: description_of_def extract_text_def extract_text_try_def hasattr_def
          getattr_def dot_def blank_response_def text_typed_def strip_def is_space_def
          whitespace_def is_continuation_def)
  have e: "empty_or_absent blank_response"
    by (simp add: empty_or_absent_def direct_text_def first_text_part_def content_parts_def
          parts_of_items_def first_text_in_def getattr_def blank_response_def text_typed_def
          strip_def is_space_def whitespace_def is_continuation_def)
  show ?thesis
    using d e
      empty_result_cycle [of "queued [''capture'']" "[]" blank_answer "''JFIF''"
        blank_response sample_lib "[]"]
    by (simp add: queued_def blank_answer_def all_well_def safe_text_def remove_char_def)
qed

text \<open>
  Claim C3 as it is written fails: with an empty direct text field the pass ends with
  the pulse of 0.5 s and a speech process given the empty text.
\<close>

theorem empty_answer_is_spoken:
  "cycle_events sample_lib empty_answer (queued [''capture'']) =
     [QueueGet ''capture'', Print '' Capturing image...'',
      SubprocessRun [''fswebcam'', ''-r'', ''640x480'', ''-S'', ''2'', ''--no-banner'',
                     ''captured_image.jpg''],
      Print '' Image captured successfully!'', OpenRead ''captured_image.jpg'',
      Print '' Sending image to OpenAI...'',
      ResponsesCreate MODEL prompt ''data:image/jpeg;base64,/9j/4AAQ'',
      Print '' AI says: '',
      GpioOutput 29 HIGH, Sleep 0.5, GpioOutput 29 LOW,
      Print '' Description: '',
      Popen (''espeak '' @ [CHR 0x22, CHR 0x22] @ '' --stdout | aplay -D plughw:2,0''),
      Print '' Speaking: '', Sleep 0.1]
   \<and> list_ex is_speech_call (cycle_events sample_lib empty_answer (queued [''capture'']))
   \<and> Sleep 1.0 \<notin> set (cycle_events sample_lib empty_answer (queued [''capture'']))"
proof -
  have x: "extract_text sample_lib empty_response = Inr []"
    by (simp add: extract_text_def extract_text_try_def hasattr_def dot_def
          empty_response_def strip_def)
  have "cycle_events sample_lib empty_answer (queued [''capture'']) =
     [QueueGet ''capture'', Print '' Capturing image...'',
      SubprocessRun [''fswebcam'', ''-r'', ''640x480'', ''-S'', ''2'', ''--no-banner'',
                     ''captured_image.jpg''],
      Print '' Image captured successfully!'', OpenRead ''captured_image.jpg'',
      Print '' Sending image to OpenAI...'',
      ResponsesCreate MODEL prompt ''data:image/jpeg;base64,/9j/4AAQ'',
      Print '' AI says: '',
      GpioOutput 29 HIGH, Sleep 0.5, GpioOutput 29 LOW,
      Print '' Description: '',
      Popen (''espeak '' @ [CHR 0x22, CHR 0x22] @ '' --stdout | aplay -D plughw:2,0''),
      Print '' Speaking: '', Sleep 0.1]"
    using success_cycle [of "queued [''capture'']" "[]" empty_answer "''JFIF''"
            empty_response sample_lib "[]"] x
    by (simp add: queued_def empty_answer_def all_well_def sample_lib_def
          RESOLUTION_def IMAGE_PATH_def VibPin_def espeak_command_def safe_text_def
          remove_char_def)
  then show ?thesis by simp
qed

subsection \<open>The successful cycle\<close>

text \<open>
  Claim C4. In a pass that takes a \<open>"capture"\<close> task and in which capture, reading and
  analysis succeed, with \<open>d\<close> the description that \<open>analyze_image\<close> returns, the events
  begin with those of the capture and the analysis, then the motor is driven high for
  0.5 s and low again, and only then the speech process is started; its command holds
  \<open>d\<close> without the characters \<open>"\<close> and \<open>'\<close> and otherwise unchanged. The speech process
  is started once, and the motor is driven by this pulse only.
\<close>

theorem success_cycle_order:
  assumes "task_queue s = ''capture'' # rest"
    and "capture_result ev = Exited 0" and "read_result ev = Inr bytes"
    and "api_result ev = Inr resp" and "extract_text lib resp = Inr d"
  shows "prefix
      [QueueGet ''capture'', Print '' Capturing image...'',
       SubprocessRun [''fswebcam'', ''-r'', RESOLUTION, ''-S'', ''2'', ''--no-banner'', IMAGE_PATH],
       Print '' Image captured successfully!'', OpenRead IMAGE_PATH,
       Print '' Sending image to OpenAI...'',
       ResponsesCreate MODEL prompt (''data:image/jpeg;base64,'' @ b64encode lib bytes),
       Print ('' AI says: '' @ d),
       GpioOutput VibPin HIGH, Sleep 0.5, GpioOutput VibPin LOW,
       Print ('' Description: '' @ d),
       Popen (''espeak '' @ [CHR 0x22] @ filter (\<lambda>c. c \<noteq> CHR 0x22 \<and> c \<noteq> CHR 0x27) d
              @ [CHR 0x22] @ '' --stdout | aplay -D plughw:2,0'')]
      (cycle_events lib ev s)
    \<and> length (filter is_speech_call (cycle_events lib ev s)) = 1
    \<and> length (filter is_gpio_output (cycle_events lib ev s)) = 2"
  by (simp add: success_cycle [OF assms] safe_text_filter espeak_command_def
        split: option.splits)

theorem success_cycle_order_witness:
  "task_queue (queued [''capture'']) = ''capture'' # []
   \<and> capture_result quoted_answer = Exited 0
   \<and> read_result quoted_answer = Inr ''JFIF''
   \<and> api_result quoted_answer = Inr quoted_response
   \<and> extract_text sample_lib quoted_response = Inr (''A '' @ [CHR 0x22] @ ''red'' @ [CHR 0x22] @ '' chair'' @ [CHR 0x27] @ ''s leg.'')
   \<and> prefix
      [QueueGet ''capture'', Print '' Capturing image...'',
       SubprocessRun [''fswebcam'', ''-r'', RESOLUTION, ''-S'', ''2'', ''--no-banner'', IMAGE_PATH],
       Print '' Image captured successfully!'', OpenRead IMAGE_PATH,
       Print '' Sending image to OpenAI...'',
       ResponsesCreate MODEL prompt ''data:image/jpeg;base64,/9j/4AAQ'',
       Print ('' AI says: A '' @ [CHR 0x22] @ ''red'' @ [CHR 0x22] @ '' chair'' @ [CHR 0x27] @ ''s leg.''),
       GpioOutput VibPin HIGH, Sleep 0.5, GpioOutput VibPin LOW,
       Print ('' Description: A '' @ [CHR 0x22] @ ''red'' @ [CHR 0x22] @ '' chair'' @ [CHR 0x27] @ ''s leg.''),
       Popen (''espeak '' @ [CHR 0x22] @ ''A red chairs leg.''
              @ [CHR 0x22] @ '' --stdout | aplay -D plughw:2,0'')]
      (cycle_events sample_lib quoted_answer (queued [''capture'']))"
proof -
  have x: "extract_text sample_lib quoted_response = Inr (''A '' @ [CHR 0x22] @ ''red'' @ [CHR 0x22] @ '' chair'' @ [CHR 0x27] @ ''s leg.'')"
    by (simp add: extract_text_def extract_text_try_def hasattr_def dot_def
          quoted_response_def strip_def is_space_def whitespace_def is_continuation_def)
  show ?thesis
    using success_cycle_order [of "queued [''capture'']" "[]" quoted_answer "''JFIF''"
            quoted_response sample_lib
            "''A '' @ [CHR 0x22] @ ''red'' @ [CHR 0x22] @ '' chair'' @ [CHR 0x27] @ ''s leg.''"] x
    by (simp add: queued_def quoted_answer_def all_well_def sample_lib_def)
qed

subsection \<open>Extraction of the text\<close>

text \<open>
  Claim C5 does not hold of \<open>extract_text\<close>. The nested search reads the content of an
  item with the default \<open>[]\<close>, so an item without content is passed over; but an item
  whose content is \<open>None\<close> (a reasoning item) makes the inner loop raise \<open>TypeError\<close>,
  which \<open>except Exception\<close> turns into the fall-back. For a response without a direct
  text field whose first item has the content \<open>None\<close> and whose second item holds the
  text part \<open>"A red chair."\<close>, the function returns the response as a string, where the
  rule of the claim gives the text of the part. With the first item having no content
  at all, the function returns the text.
\<close>

theorem extract_text_skips_later_text:
  "extract_text sample_lib reasoning_response = Inr ''<Response>''
   \<and> extract_text_spec sample_lib reasoning_response = ''A red chair.''
   \<and> extract_text sample_lib plain_response = Inr ''A red chair.''"
  by (simp add: extract_text_def extract_text_try_def hasattr_def getattr_def dot_def
        reasoning_response_def plain_response_def sample_lib_def extract_text_spec_def
        direct_text_def first_text_part_def content_parts_def parts_of_items_def
        first_text_in_def text_typed_def strip_def is_space_def whitespace_def
        is_continuation_def)

subsection \<open>The queue\<close>

text \<open>
  Claim C6. While the loop runs, over any schedule of presses and passes and whatever
  the outside answers, the tasks taken so far followed by the tasks still queued are
  the tasks taken before followed by the tasks queued before and one \<open>"capture"\<close> for
  each press, in this order; and the tasks put are those put before and one for each
  press. So tasks are taken in the order in which they were put, a task that was put
  is taken at most once, and the loop puts nothing back. A single pass over a queue
  with head \<open>a\<close> takes \<open>a\<close>, leaves the rest of the queue and puts nothing, whether the
  cycle succeeds or fails: of two queued tasks the earlier one is taken and processed
  in an earlier pass. After \<open>n\<close> passes without a press the tasks taken are the first
  \<open>n\<close> tasks of the queue, in their order, and the queue is what was behind them.
\<close>

theorem fifo_order:
  "(still_running (process_tasks lib sched s) \<longrightarrow>
      gets (trace (state_of (process_tasks lib sched s)))
        @ task_queue (state_of (process_tasks lib sched s))
      = gets (trace s) @ task_queue s @ replicate (presses sched) ''capture''
    \<and> puts (trace (state_of (process_tasks lib sched s)))
      = puts (trace s) @ replicate (presses sched) ''capture'')
   \<and> (task_queue s = a # rest \<longrightarrow>
      gets (trace (state_of (process_tasks_body lib ev s))) = gets (trace s) @ [a]
    \<and> task_queue (state_of (process_tasks_body lib ev s)) = rest
    \<and> puts (trace (state_of (process_tasks_body lib ev s))) = puts (trace s))
   \<and> (still_running (process_tasks lib (map Poll evs) s) \<longrightarrow>
      gets (trace (state_of (process_tasks lib (map Poll evs) s)))
      = gets (trace s) @ take (length evs) (task_queue s)
    \<and> task_queue (state_of (process_tasks lib (map Poll evs) s))
      = drop (length evs) (task_queue s))"
  using fifo_invariant [of lib sched s] process_tasks_body_head [of s a rest lib ev]
    process_tasks_body_queue [of lib ev s] polls_take_prefix [of lib evs s]
  by blast

theorem fifo_order_witness:
  "still_running (process_tasks sample_lib [Poll network_fails, Press, Poll all_well]
      (queued [''capture'', ''capture'']))
   \<and> gets (trace (state_of (process_tasks sample_lib [Poll network_fails, Press, Poll all_well]
        (queued [''capture'', ''capture'']))))
      @ task_queue (state_of (process_tasks sample_lib [Poll network_fails, Press, Poll all_well]
        (queued [''capture'', ''capture''])))
     = [''capture'', ''capture'', ''capture'']
   \<and> puts (trace (state_of (process_tasks sample_lib [Poll network_fails, Press, Poll all_well]
        (queued [''capture'', ''capture''])))) = [''capture'']
   \<and> task_queue (queued [''capture'', ''capture'']) = ''capture'' # [''capture'']
   \<and> task_queue (state_of (process_tasks_body sample_lib network_fails
        (queued [''capture'', ''capture'']))) = [''capture'']
   \<and> still_running (process_tasks sample_lib (map Poll [network_fails, all_well])
        (queued [''capture'', ''capture'']))
   \<and> gets (trace (state_of (process_tasks sample_lib (map Poll [network_fails, all_well])
        (queued [''capture'', ''capture''])))) = [''capture'', ''capture'']
   \<and> task_queue (state_of (process_tasks sample_lib (map Poll [network_fails, all_well])
        (queued [''capture'', ''capture'']))) = []"
proof -
  have run: "still_running (process_tasks sample_lib [Poll network_fails, Press, Poll all_well]
      (queued [''capture'', ''capture'']))"
    by (simp add: still_running_def process_tasks_body_def capture_cycle_def
        analyze_image_def capture_image_def to_data_url_def sample_texts
        speak_def on_error_def idle_sleep_def Let_def queued_def all_well_def
        network_fails_def button_pressed_def queue_put_def)
  have polls: "still_running (process_tasks sample_lib (map Poll [network_fails, all_well])
      (queued [''capture'', ''capture'']))"
    by (simp add: still_running_def process_tasks_body_def capture_cycle_def
        analyze_image_def capture_image_def to_data_url_def sample_texts
        speak_def on_error_def idle_sleep_def Let_def queued_def all_well_def
        network_fails_def)
  show ?thesis
    using run polls
      fifo_order [of sample_lib "[Poll network_fails, Press, Poll all_well]"
        "queued [''capture'', ''capture'']" "''capture''" "[''capture'']" network_fails
        "[network_fails, all_well]"]
    by (simp add: queued_def)
qed

subsection \<open>The button handler\<close>

text \<open>
  Claim C7. A call of \<open>button_pressed\<close> prints its message, drives the motor high for
  0.2 s and low again, and then puts one \<open>"capture"\<close> task at the end of the queue;
  these are all its events, so it calls neither the capture program nor the analysis
  service nor the speech program.
\<close>

theorem button_pressed_effects:
  "trace (button_pressed channel s) =
     trace s @ [Print '' Button pressed! Queuing capture task...'',
                GpioOutput VibPin HIGH, Sleep 0.2, GpioOutput VibPin LOW,
                QueuePut ''capture'']
   \<and> task_queue (button_pressed channel s) = task_queue s @ [''capture'']
   \<and> levels (button_pressed channel s) = (levels s)(VibPin := LOW)
   \<and> \<not> list_ex (\<lambda>e. is_capture_call e \<or> is_analysis_call e \<or> is_speech_call e)
          (drop (length (trace s)) (trace (button_pressed channel s)))"
  by (simp add: button_pressed_simps)

subsection \<open>The loop\<close>

text \<open>
  Claim C8. In a pass that takes a \<open>"capture"\<close> task, if every exception raised by the
  calls to the outside (starting the capture program, reading the image, the analysis
  service, starting the speech process) is of class \<open>Exception\<close>, and the sleep at the
  end of the pass is not interrupted, then the pass returns: no exception leaves the
  loop body, the motor pin is low, the last event is the sleep of 0.1 s, and the loop
  goes on with the rest of the schedule.
\<close>

theorem service_errors_do_not_stop_loop:
  assumes "task_queue s = ''capture'' # rest"
    and "list_all (\<lambda>e. is_Exception (cls e)) (service_errors ev)"
    and "sleep_result ev = None"
  shows "process_tasks_body lib ev s = Inr (state_of (process_tasks_body lib ev s))
    \<and> levels (state_of (process_tasks_body lib ev s)) VibPin = LOW
    \<and> last (trace (state_of (process_tasks_body lib ev s))) = Sleep 0.1
    \<and> process_tasks lib (Poll ev # sched) s
        = process_tasks lib sched (state_of (process_tasks_body lib ev s))"
proof -
  define s1 where "s1 = emit (QueueGet ''capture'') (s\<lparr>task_queue := rest\<rparr>)"
  define s2 where "s2 = state_of (capture_cycle lib ev s1)"
  from capture_cycle_returns [OF assms(2), of lib s1]
  have c: "capture_cycle lib ev s1 = Inr s2" and l: "levels s2 VibPin = LOW"
    by (simp_all add: s2_def)
  from assms(1,3) c have body: "process_tasks_body lib ev s = Inr (emit (Sleep 0.1) s2)"
    by (simp add: process_tasks_body_def s1_def idle_sleep_def)
  with l show ?thesis by (simp add: state_of_def)
qed

theorem service_errors_do_not_stop_loop_witness:
  "task_queue (queued [''capture'']) = ''capture'' # []
   \<and> list_all (\<lambda>e. is_Exception (cls e)) (service_errors speech_fails)
   \<and> service_errors speech_fails = [Exn OSError ''Cannot allocate memory'']
   \<and> sleep_result speech_fails = None
   \<and> process_tasks_body sample_lib speech_fails (queued [''capture''])
       = Inr (state_of (process_tasks_body sample_lib speech_fails (queued [''capture''])))
   \<and> levels (state_of (process_tasks_body sample_lib speech_fails (queued [''capture'']))) VibPin
       = LOW
   \<and> last (trace (state_of (process_tasks_body sample_lib speech_fails (queued [''capture'']))))
       = Sleep 0.1"
  using service_errors_do_not_stop_loop [of "queued [''capture'']" "[]" speech_fails
          sample_lib "[]"]
  by (simp add: queued_def speech_fails_def all_well_def service_errors_def)

text \<open>
  Claim C9. The program is started, the loop runs over some schedule and is then idle
  (the queue is empty), and the interrupt signal arrives during the sleep of the next
  pass as a \<open>KeyboardInterrupt\<close>. Then \<open>main\<close> ends normally, whatever would have
  followed in the schedule: after the interrupted sleep its last events are the motor
  pin driven low, the GPIO clean-up and the closing message; the motor pin is low and
  no channel is left configured.
\<close>

theorem interrupt_while_idle:
  assumes "still_running
             (process_tasks lib sched (emit (GpioAddEventDetect BtnPin 500) (setup_gpio s)))"
    and "task_queue (state_of (process_tasks lib sched
            (emit (GpioAddEventDetect BtnPin 500) (setup_gpio s)))) = []"
    and "sleep_result ev = Some e" and "cls e = KeyboardInterrupt"
  shows "finished (main lib (sched @ Poll ev # later) s)
    \<and> levels (outcome_state (main lib (sched @ Poll ev # later) s)) VibPin = LOW
    \<and> channels (outcome_state (main lib (sched @ Poll ev # later) s)) = []
    \<and> trace (outcome_state (main lib (sched @ Poll ev # later) s))
        = trace (state_of (process_tasks lib sched
                   (emit (GpioAddEventDetect BtnPin 500) (setup_gpio s))))
          @ [Sleep 0.1, GpioOutput VibPin LOW, GpioCleanup, Print '' GPIO cleaned up.'']"
proof -
  define s0 where "s0 = emit (GpioAddEventDetect BtnPin 500) (setup_gpio s)"
  from assms(1) obtain s1 where run: "process_tasks lib sched s0 = Inr s1"
    by (auto simp: still_running_def s0_def split: sum.splits)
  with assms(2) have idle: "task_queue s1 = []"
    by (simp add: state_of_def s0_def)
  from idle assms(3) have "process_tasks_body lib ev s1 = Inl (e, emit (Sleep 0.1) s1)"
    by (simp add: process_tasks_body_def idle_sleep_def)
  with run have "process_tasks lib (sched @ Poll ev # later) s0 = Inl (e, emit (Sleep 0.1) s1)"
    by (simp add: process_tasks_append)
  with assms(4)
  have "main lib (sched @ Poll ev # later) s = Finished (destroy (emit (Sleep 0.1) s1))"
    by (simp add: main_def s0_def Let_def)
  with run show ?thesis
    by (simp add: destroy_simps state_of_def s0_def)
qed

theorem interrupt_while_idle_witness:
  "still_running (process_tasks sample_lib [Press, Poll all_well]
      (emit (GpioAddEventDetect BtnPin 500) (setup_gpio power_on)))
   \<and> task_queue (state_of (process_tasks sample_lib [Press, Poll all_well]
        (emit (GpioAddEventDetect BtnPin 500) (setup_gpio power_on)))) = []
   \<and> sleep_result interrupted = Some (Exn KeyboardInterrupt [])
   \<and> cls (Exn KeyboardInterrupt []) = KeyboardInterrupt
   \<and> finished (main sample_lib ([Press, Poll all_well] @ Poll interrupted # []) power_on)
   \<and> levels (outcome_state
        (main sample_lib ([Press, Poll all_well] @ Poll interrupted # []) power_on)) VibPin = LOW
   \<and> channels (outcome_state
        (main sample_lib ([Press, Poll all_well] @ Poll interrupted # []) power_on)) = []"
proof -
  have run: "process_tasks sample_lib [Press, Poll all_well]
      (emit (GpioAddEventDetect BtnPin 500) (setup_gpio power_on))
    = Inr (state_of (process_tasks sample_lib [Press, Poll all_well]
      (emit (GpioAddEventDetect BtnPin 500) (setup_gpio power_on))))
    \<and> task_queue (state_of (process_tasks sample_lib [Press, Poll all_well]
        (emit (GpioAddEventDetect BtnPin 500) (setup_gpio power_on)))) = []"
    by (simp add: process_tasks_body_def capture_cycle_def
        analyze_image_def capture_image_def to_data_url_def sample_texts
        speak_def on_error_def idle_sleep_def Let_def all_well_def
        button_pressed_def queue_put_def setup_gpio_def power_on_def state_of_def)
  then have alive: "still_running (process_tasks sample_lib [Press, Poll all_well]
      (emit (GpioAddEventDetect BtnPin 500) (setup_gpio power_on)))"
    by (simp add: still_running_def split: sum.splits)
  show ?thesis
    using alive run
      interrupt_while_idle [of sample_lib "[Press, Poll all_well]" power_on interrupted
        "Exn KeyboardInterrupt []" "[]"]
    by (simp add: interrupted_def all_well_def)
qed

text \<open>
  Claim C10. A pass that takes a task other than \<open>"capture"\<close> has two events, the
  taking of the task and the sleep of 0.1 s: no program or service is called and the
  motor is not driven. The task is gone from the queue, the pin levels are unchanged,
  and unless the sleep is interrupted the loop goes on with the rest of the schedule.
\<close>

theorem other_task_is_dropped:
  assumes "task_queue s = task # rest" and "task \<noteq> ''capture''"
  shows "cycle_events lib ev s = [QueueGet task, Sleep 0.1]
    \<and> task_queue (state_of (process_tasks_body lib ev s)) = rest
    \<and> levels (state_of (process_tasks_body lib ev s)) = levels s
    \<and> (sleep_result ev = None \<longrightarrow>
         process_tasks lib (Poll ev # sched) s
           = process_tasks lib sched (state_of (process_tasks_body lib ev s)))"
  using assms
  by (simp add: cycle_events_def process_tasks_body_def idle_sleep_def state_of_def Let_def
        split: option.splits)

theorem other_task_is_dropped_witness:
  "task_queue (queued [''describe'', ''capture'']) = ''describe'' # [''capture'']
   \<and> ''describe'' \<noteq> ''capture''
   \<and> cycle_events sample_lib all_well (queued [''describe'', ''capture''])
       = [QueueGet ''describe'', Sleep 0.1]
   \<and> task_queue (state_of (process_tasks_body sample_lib all_well
        (queued [''describe'', ''capture'']))) = [''capture'']
   \<and> sleep_result all_well = None"
  using other_task_is_dropped [of "queued [''describe'', ''capture'']" "''describe''"
          "[''capture'']" sample_lib all_well "[]"]
  by (simp add: queued_def all_well_def)

end
